theory Spec2Isabelle
  imports Complex_Main "HOL-Library.AList" "HOL-Library.Sublist"
begin

section \<open>The error handler of kiara-note: data model\<close>

text \<open>
  The class \<^verbatim>\<open>ErrorHandler\<close> (utils/errorHandler.js) holds three JavaScript
  \<^verbatim>\<open>Map\<close>s that are read and written: \<^verbatim>\<open>errorCounts\<close>, \<^verbatim>\<open>rateLimits\<close> and
  \<^verbatim>\<open>lastErrors\<close> (the fourth, \<^verbatim>\<open>retryStrategies\<close>, is never touched). A JavaScript
  Map iterates in insertion order, \<^verbatim>\<open>set\<close> on a present key keeps its place and
  \<^verbatim>\<open>delete\<close> removes the entry, so each Map is an association list handled with
  \<^const>\<open>AList.update\<close>, \<^const>\<open>AList.delete\<close> and \<^const>\<open>map_of\<close>.

  Times are the integer milliseconds of \<^verbatim>\<open>Date.now()\<close>. Counters and the options
  \<^verbatim>\<open>maxRetries\<close>, \<^verbatim>\<open>circuitBreakerThreshold\<close> and \<^verbatim>\<open>maxRequests\<close> are natural numbers
  (negative or fractional option values are outside the model). The delay arithmetic of
  \<^verbatim>\<open>getRetryDelay\<close> is done in the reals, an idealisation of the doubles of the source.

  A value thrown by the wrapped operation is an object with an optional string
  \<^verbatim>\<open>message\<close> and an optional numeric \<^verbatim>\<open>status\<close>.
\<close>

record js_error =
  message :: "string option"
  status :: "int option"

text \<open>The object literal \<^verbatim>\<open>{ type, message, status }\<close> handed to \<^verbatim>\<open>trackError\<close>.\<close>

record tracked_error =
  etype :: "string option"
  emessage :: "string option"
  estatus :: "int option"

record tracking =
  count :: nat
  firstError :: int
  lastError :: int

record rate_limit =
  rl_count :: nat
  resetTime :: int
  windowMs :: int
  maxRequests :: nat

record last_error =
  err :: tracked_error
  timestamp :: int
  le_count :: nat

record error_handler =
  errorCounts :: "(string \<times> tracking) list"
  rateLimits :: "(string \<times> rate_limit) list"
  lastErrors :: "(string \<times> last_error) list"

text \<open>The constructor: every Map starts empty.\<close>

definition new_handler :: error_handler where
  "new_handler = \<lparr>errorCounts = [], rateLimits = [], lastErrors = []\<rparr>"

record options =
  maxRetries :: nat
  baseDelay :: real
  maxDelay :: real
  circuitBreakerThreshold :: nat
  circuitBreakerTimeout :: int
  operationName :: string

text \<open>The defaults of the destructuring at the head of \<^verbatim>\<open>retryOperation\<close>.\<close>

definition default_options :: options where
  "default_options =
     \<lparr>maxRetries = 3, baseDelay = 1000, maxDelay = 30000, circuitBreakerThreshold = 5,
      circuitBreakerTimeout = 60000, operationName = ''unknown''\<rparr>"

section \<open>Strings\<close>

text \<open>\<^verbatim>\<open>s.includes(sub)\<close>: \<^verbatim>\<open>sub\<close> occurs in \<^verbatim>\<open>s\<close> as a contiguous, case-sensitive run.\<close>

fun str_includes :: "string \<Rightarrow> string \<Rightarrow> bool" where
  "str_includes [] sub = (sub = [])"
| "str_includes (c # cs) sub = (prefix sub (c # cs) \<or> str_includes cs sub)"

text \<open>
  \<^verbatim>\<open>key.split('_')\<close>: the pieces between underscores; the result always has at least
  one piece, and an underscore at either end gives an empty piece.
\<close>

fun split_underscore :: "string \<Rightarrow> string list" where
  "split_underscore [] = [[]]"
| "split_underscore (c # cs) =
     (if c = CHR ''_'' then [] # split_underscore cs
      else (case split_underscore cs of
              [] \<Rightarrow> [[c]]
            | w # ws \<Rightarrow> (c # w) # ws))"

text \<open>Reading index \<open>i\<close> of a JavaScript array: \<^verbatim>\<open>undefined\<close> past the end.\<close>

definition at_index :: "'a list \<Rightarrow> nat \<Rightarrow> 'a option" where
  "at_index xs i = (if i < length xs then Some (xs ! i) else None)"

text \<open>A value used as a property name of a plain object: \<^verbatim>\<open>undefined\<close> becomes the
  string \<^verbatim>\<open>"undefined"\<close>.\<close>

definition property_name :: "string option \<Rightarrow> string" where
  "property_name v = (case v of None \<Rightarrow> ''undefined'' | Some s \<Rightarrow> s)"

section \<open>Classification\<close>

text \<open>\<^verbatim>\<open>error.message?.includes(sub)\<close>: falsy when there is no message.\<close>

definition message_includes :: "js_error \<Rightarrow> string \<Rightarrow> bool" where
  "message_includes e sub = (case message e of None \<Rightarrow> False | Some m \<Rightarrow> str_includes m sub)"

definition getErrorType :: "js_error \<Rightarrow> string" where
  "getErrorType e =
     (if message_includes e ''rate limit'' then ''rate_limit''
      else if message_includes e ''network'' then ''network''
      else if message_includes e ''authentication'' then ''auth''
      else if message_includes e ''permission'' then ''permission''
      else if status e = Some 401 then ''auth''
      else if status e = Some 403 then ''permission''
      else if status e = Some 404 then ''not_found''
      else if status e = Some 429 then ''rate_limit''
      else if (case status e of None \<Rightarrow> False | Some st \<Rightarrow> 500 \<le> st) then ''server''
      else ''general'')"

definition noRetryErrors :: "string list" where
  "noRetryErrors = [''authentication'', ''permission'', ''not_found'']"

definition shouldNotRetry :: "js_error \<Rightarrow> bool" where
  "shouldNotRetry e = (getErrorType e \<in> set noRetryErrors)"

section \<open>Tracking and rate limiting\<close>

text \<open>
  \<^verbatim>\<open>trackError(operation, error)\<close> at clock reading \<open>now\<close>. The key is
  \<^verbatim>\<open>`${operation}_${error.type || 'general'}`\<close>; a missing entry is created with count 0
  and then incremented, which is the entry with count 1.
\<close>

definition tracking_key :: "string \<Rightarrow> tracked_error \<Rightarrow> string" where
  "tracking_key operation e =
     operation @ ''_'' @
       (case etype e of None \<Rightarrow> ''general'' | Some ty \<Rightarrow> if ty = [] then ''general'' else ty)"

definition trackError :: "error_handler \<Rightarrow> int \<Rightarrow> string \<Rightarrow> tracked_error \<Rightarrow> error_handler \<times> tracking" where
  "trackError h now operation e =
     (let key = tracking_key operation e;
          tr = (case map_of (errorCounts h) key of
                  None \<Rightarrow> \<lparr>count = 1, firstError = now, lastError = now\<rparr>
                | Some t \<Rightarrow> t\<lparr>count := count t + 1, lastError := now\<rparr>)
      in (h\<lparr>errorCounts := AList.update key tr (errorCounts h),
            lastErrors := AList.update key \<lparr>err = e, timestamp = now, le_count = count tr\<rparr> (lastErrors h)\<rparr>,
          tr))"

definition isRateLimited :: "error_handler \<Rightarrow> int \<Rightarrow> string \<Rightarrow> bool" where
  "isRateLimited h now operation =
     (case map_of (rateLimits h) operation of
        None \<Rightarrow> False
      | Some limit \<Rightarrow> now < resetTime limit)"

text \<open>\<^verbatim>\<open>applyRateLimit(operation, windowMs, maxRequests)\<close> at clock reading \<open>now\<close>:
  the new state and the returned flag.\<close>

definition applyRateLimit :: "error_handler \<Rightarrow> int \<Rightarrow> string \<Rightarrow> int \<Rightarrow> nat \<Rightarrow> error_handler \<times> bool" where
  "applyRateLimit h now operation wMs maxReq =
     (case map_of (rateLimits h) operation of
        None \<Rightarrow>
          (h\<lparr>rateLimits :=
               AList.update operation
                 \<lparr>rl_count = 1, resetTime = now + wMs, windowMs = wMs, maxRequests = maxReq\<rparr>
                 (rateLimits h)\<rparr>,
           False)
      | Some limit \<Rightarrow>
          if resetTime limit \<le> now then
            (h\<lparr>rateLimits :=
                 AList.update operation (limit\<lparr>rl_count := 1, resetTime := now + wMs\<rparr>) (rateLimits h)\<rparr>,
             False)
          else if maxRequests limit \<le> rl_count limit then (h, True)
          else
            (h\<lparr>rateLimits :=
                 AList.update operation (limit\<lparr>rl_count := rl_count limit + 1\<rparr>) (rateLimits h)\<rparr>,
             False))"

text \<open>
  \<^verbatim>\<open>getRetryDelay(operation, attempt, maxDelay)\<close>; \<open>rnd\<close> is the value drawn by
  \<^verbatim>\<open>Math.random()\<close>. The base delay is the local constant 1000 of the source.
\<close>

definition getRetryDelay :: "error_handler \<Rightarrow> real \<Rightarrow> string \<Rightarrow> nat \<Rightarrow> real \<Rightarrow> real" where
  "getRetryDelay h rnd operation attempt maxDel =
     (let baseDel = 1000;
          errorCount = (case map_of (errorCounts h) operation of None \<Rightarrow> 0 | Some t \<Rightarrow> count t);
          delay = min (baseDel * 2 ^ attempt + rnd * 1000) maxDel;
          errorMultiplier = min errorCount 5
      in delay * (1 + real errorMultiplier * (1 / 10)))"

section \<open>Retry with circuit breaker\<close>

text \<open>
  What \<^verbatim>\<open>retryOperation\<close> can throw: the two fast-fail errors (built by
  \<^verbatim>\<open>new Error(...)\<close> from the operation name and, for the rate limit, the reset time),
  the operation's own error, and the two values that only a defensive path could throw
  (\<^verbatim>\<open>throw lastError\<close> with nothing recorded, and reading a field of a missing window).
\<close>

datatype thrown =
    CircuitOpen string
  | RateLimitExceeded string int
  | OperationError js_error
  | ThrownUndefined
  | TypeError

text \<open>
  One call of \<^verbatim>\<open>retryOperation\<close>, observed: what it returned or threw, the handler
  state it left, how many times it invoked the operation, and the delays it waited for.
\<close>

record 'a run =
  outcome :: "thrown + 'a"
  handler :: error_handler
  invocations :: nat
  delays :: "real list"

text \<open>Lines 313 to 322: the circuit breaker reads the entry stored under the plain
  operation name.\<close>

definition checkCircuitBreaker :: "error_handler \<Rightarrow> int \<Rightarrow> options \<Rightarrow> thrown + error_handler" where
  "checkCircuitBreaker h now opts =
     (case map_of (errorCounts h) (operationName opts) of
        None \<Rightarrow> Inr h
      | Some tr \<Rightarrow>
          if circuitBreakerThreshold opts \<le> count tr then
            (if now - lastError tr < circuitBreakerTimeout opts
             then Inl (CircuitOpen (operationName opts))
             else Inr (h\<lparr>errorCounts := AList.delete (operationName opts) (errorCounts h)\<rparr>))
          else Inr h)"

text \<open>\<^verbatim>\<open>throw lastError\<close> after the loop.\<close>

definition throwLast :: "js_error option \<Rightarrow> thrown" where
  "throwLast lastErr = (case lastErr of None \<Rightarrow> ThrownUndefined | Some e \<Rightarrow> OperationError e)"

text \<open>
  The \<^verbatim>\<open>for\<close> loop of lines 332 to 370, entered at \<open>attempt\<close>. The environment of
  the call is given by three functions of the attempt index: \<open>operation k\<close> is how the
  invocation of attempt \<open>k\<close> settles (\<open>Inr\<close> a result, \<open>Inl\<close> the rejection),
  \<open>clock k\<close> is what \<^verbatim>\<open>Date.now()\<close> reads when that failure is tracked, and
  \<open>rnd k\<close> is what \<^verbatim>\<open>Math.random()\<close> draws for the delay after it. Every delay is
  taken to elapse.
\<close>

function attemptLoop ::
  "options \<Rightarrow> (nat \<Rightarrow> js_error + 'a) \<Rightarrow> (nat \<Rightarrow> int) \<Rightarrow> (nat \<Rightarrow> real) \<Rightarrow>
   error_handler \<Rightarrow> js_error option \<Rightarrow> nat \<Rightarrow> real list \<Rightarrow> 'a run" where
  "attemptLoop opts operation clock rnd h lastErr attempt ds =
     (if attempt \<le> maxRetries opts then
        (case operation attempt of
           Inr result \<Rightarrow>
             \<lparr>outcome = Inr result,
              handler = h\<lparr>errorCounts := AList.delete (operationName opts) (errorCounts h)\<rparr>,
              invocations = Suc attempt, delays = ds\<rparr>
         | Inl e \<Rightarrow>
             (let h' = fst (trackError h (clock attempt) (operationName opts)
                              \<lparr>etype = Some (getErrorType e), emessage = message e, estatus = status e\<rparr>)
              in if shouldNotRetry e then
                   \<lparr>outcome = Inl (OperationError e), handler = h',
                    invocations = Suc attempt, delays = ds\<rparr>
                 else if attempt = maxRetries opts then
                   \<lparr>outcome = Inl (throwLast (Some e)), handler = h',
                    invocations = Suc attempt, delays = ds\<rparr>
                 else
                   attemptLoop opts operation clock rnd h' (Some e) (Suc attempt)
                     (ds @ [getRetryDelay h' (rnd attempt) (operationName opts) attempt (maxDelay opts)])))
      else
        \<lparr>outcome = Inl (throwLast lastErr), handler = h, invocations = attempt, delays = ds\<rparr>)"
  by pat_completeness auto
termination
  by (relation "measure (\<lambda>(opts, operation, clock, rnd, h, lastErr, attempt, ds). Suc (maxRetries opts) - attempt)") auto

text \<open>
  \<^verbatim>\<open>retryOperation(operation, options)\<close> entered at clock reading \<open>now\<close> (the two
  gates run in one synchronous stretch and read the same clock).
\<close>

definition retryOperation ::
  "error_handler \<Rightarrow> int \<Rightarrow> (nat \<Rightarrow> int) \<Rightarrow> (nat \<Rightarrow> real) \<Rightarrow> (nat \<Rightarrow> js_error + 'a) \<Rightarrow> options \<Rightarrow> 'a run" where
  "retryOperation h now clock rnd operation opts =
     (case checkCircuitBreaker h now opts of
        Inl e \<Rightarrow> \<lparr>outcome = Inl e, handler = h, invocations = 0, delays = []\<rparr>
      | Inr h1 \<Rightarrow>
          if isRateLimited h1 now (operationName opts) then
            \<lparr>outcome =
               Inl (case map_of (rateLimits h1) (operationName opts) of
                      None \<Rightarrow> TypeError
                    | Some limit \<Rightarrow> RateLimitExceeded (operationName opts) (resetTime limit)),
             handler = h1, invocations = 0, delays = []\<rparr>
          else attemptLoop opts operation clock rnd h1 None 0 [])"

section \<open>Statistics and maintenance\<close>

record recent_error =
  re_operation :: "string option"
  re_type :: "string option"
  re_message :: "string option"
  re_timestamp :: int
  re_count :: nat

text \<open>
  \<^verbatim>\<open>errorsByType\<close> and \<^verbatim>\<open>errorsByOperation\<close> are plain objects created by \<^verbatim>\<open>{}\<close>
  and used as tables. A table is the partial map of the object's own properties (the
  order in which they enumerate is not part of the model). What it holds under a name is
  a number, or a string once a number has been appended to something that is not a
  number; the text of such a string depends on the JavaScript engine and is left out.
\<close>

datatype table_value = NumberValue nat | StringValue

record error_stats =
  totalErrors :: nat
  errorsByType :: "string \<Rightarrow> table_value option"
  errorsByOperation :: "string \<Rightarrow> table_value option"
  recentErrors :: "recent_error list"

text \<open>The properties every plain object inherits from \<^verbatim>\<open>Object.prototype\<close>: all of
  them are functions, but \<^verbatim>\<open>__proto__\<close>, an accessor that returns the prototype and
  ignores a string assigned to it.\<close>

definition object_prototype_names :: "string list" where
  "object_prototype_names =
     [''constructor'', ''hasOwnProperty'', ''isPrototypeOf'', ''propertyIsEnumerable'',
      ''toLocaleString'', ''toString'', ''valueOf'', ''__proto__'',
      ''__defineGetter__'', ''__defineSetter__'', ''__lookupGetter__'', ''__lookupSetter__'']"

text \<open>
  \<^verbatim>\<open>obj[k] = (obj[k] || 0) + n\<close>. An own number is added to (an own 0 is falsy and
  replaced by 0). An own string is truthy and \<^verbatim>\<open>+\<close> appends the digits to it. With no
  own property the read goes to the prototype: an inherited function or object is truthy
  and \<^verbatim>\<open>+\<close> makes a string of it, which is stored as an own property, except under
  \<^verbatim>\<open>__proto__\<close>, where the assignment of a string does nothing; any other name reads
  \<^verbatim>\<open>undefined\<close> and starts at 0.
\<close>

definition add_count ::
  "string \<Rightarrow> nat \<Rightarrow> (string \<Rightarrow> table_value option) \<Rightarrow> (string \<Rightarrow> table_value option)" where
  "add_count k n obj =
     (case obj k of
        Some (NumberValue c) \<Rightarrow> obj(k \<mapsto> NumberValue (c + n))
      | Some StringValue \<Rightarrow> obj(k \<mapsto> StringValue)
      | None \<Rightarrow>
          if k = ''__proto__'' then obj
          else if k \<in> set object_prototype_names then obj(k \<mapsto> StringValue)
          else obj(k \<mapsto> NumberValue n))"

text \<open>The body of the first loop of \<^verbatim>\<open>getErrorStats\<close>, for one entry of
  \<^verbatim>\<open>errorCounts\<close>: \<^verbatim>\<open>const [operation, type] = key.split('_')\<close>.\<close>

definition count_entry :: "string \<times> tracking \<Rightarrow> error_stats \<Rightarrow> error_stats" where
  "count_entry entry stats =
     (let parts = split_underscore (fst entry);
          operation = at_index parts 0;
          ty = at_index parts 1
      in stats\<lparr>totalErrors := totalErrors stats + count (snd entry),
               errorsByType := add_count (property_name ty) (count (snd entry)) (errorsByType stats),
               errorsByOperation :=
                 add_count (property_name operation) (count (snd entry)) (errorsByOperation stats)\<rparr>)"

definition recent_entry :: "string \<times> last_error \<Rightarrow> recent_error" where
  "recent_entry entry =
     \<lparr>re_operation = at_index (split_underscore (fst entry)) 0,
      re_type = at_index (split_underscore (fst entry)) 1,
      re_message = emessage (err (snd entry)),
      re_timestamp = timestamp (snd entry),
      re_count = le_count (snd entry)\<rparr>"

definition getErrorStats :: "error_handler \<Rightarrow> int \<Rightarrow> error_stats" where
  "getErrorStats h now =
     (let stats = fold count_entry (errorCounts h)
                    \<lparr>totalErrors = 0, errorsByType = Map.empty, errorsByOperation = Map.empty,
                     recentErrors = []\<rparr>;
          oneHourAgo = now - 3600000
      in stats\<lparr>recentErrors :=
                 map recent_entry (filter (\<lambda>entry. oneHourAgo < timestamp (snd entry)) (lastErrors h))\<rparr>)"

text \<open>
  \<^verbatim>\<open>clearErrors(operation)\<close>. The argument is \<open>None\<close> when it is left out; the test
  \<^verbatim>\<open>if (operation)\<close> also sends the empty string to the branch that clears everything.
  With a name, the loop runs over the keys of \<^verbatim>\<open>errorCounts\<close> and deletes each key that
  starts with the name from both Maps.
\<close>

definition clear_key :: "string \<Rightarrow> string \<Rightarrow> error_handler \<Rightarrow> error_handler" where
  "clear_key operation key h =
     (if prefix operation key
      then h\<lparr>errorCounts := AList.delete key (errorCounts h),
             lastErrors := AList.delete key (lastErrors h)\<rparr>
      else h)"

definition clearErrors :: "error_handler \<Rightarrow> string option \<Rightarrow> error_handler" where
  "clearErrors h operation =
     (case operation of
        None \<Rightarrow> h\<lparr>errorCounts := [], lastErrors := []\<rparr>
      | Some name \<Rightarrow>
          if name = [] then h\<lparr>errorCounts := [], lastErrors := []\<rparr>
          else fold (clear_key name) (map fst (errorCounts h)) h)"

record limit_status =
  ls_count :: nat
  ls_maxRequests :: nat
  ls_resetTime :: int
  timeUntilReset :: int
  isLimited :: bool

definition limit_entry :: "int \<Rightarrow> string \<times> rate_limit \<Rightarrow> string \<times> limit_status" where
  "limit_entry now entry =
     (fst entry,
      \<lparr>ls_count = rl_count (snd entry),
       ls_maxRequests = maxRequests (snd entry),
       ls_resetTime = resetTime (snd entry),
       timeUntilReset = max 0 (resetTime (snd entry) - now),
       isLimited = (now < resetTime (snd entry) \<and> maxRequests (snd entry) \<le> rl_count (snd entry))\<rparr>)"

definition getRateLimitStatus :: "error_handler \<Rightarrow> int \<Rightarrow> (string \<times> limit_status) list" where
  "getRateLimitStatus h now = map (limit_entry now) (rateLimits h)"

section \<open>Operations, clocks and errors used in the scenarios\<close>

text \<open>An operation that rejects with the same error at every invocation, one that
  rejects \<open>n\<close> times and then resolves, a clock that stands still and a random
  source that always draws the same number.\<close>

definition always_fails :: "js_error \<Rightarrow> nat \<Rightarrow> js_error + nat" where
  "always_fails e k = Inl e"

definition fails_then_returns :: "nat \<Rightarrow> js_error \<Rightarrow> nat \<Rightarrow> nat \<Rightarrow> js_error + nat" where
  "fails_then_returns n e v k = (if k < n then Inl e else Inr v)"

definition clock_at :: "int \<Rightarrow> nat \<Rightarrow> int" where
  "clock_at t k = t"

definition draws :: "real \<Rightarrow> nat \<Rightarrow> real" where
  "draws r k = r"

text \<open>The errors of the scenarios: Octokit's answer to a bad token (status 401), a
  failed fetch, a timeout, which has no status and matches no message pattern, and a
  refusal (status 403).\<close>

definition bad_credentials :: js_error where
  "bad_credentials = \<lparr>message = Some ''Bad credentials'', status = Some 401\<rparr>"

definition network_error :: js_error where
  "network_error = \<lparr>message = Some ''network error'', status = None\<rparr>"

definition timeout_error :: js_error where
  "timeout_error = \<lparr>message = Some ''Request timed out'', status = None\<rparr>"

definition forbidden :: js_error where
  "forbidden = \<lparr>message = Some ''Forbidden'', status = Some 403\<rparr>"

text \<open>What \<^verbatim>\<open>fetch\<close> rejects with when the request cannot be made; it classifies as
  \<^verbatim>\<open>general\<close>.\<close>

definition failed_fetch :: js_error where
  "failed_fetch = \<lparr>message = Some ''Failed to fetch'', status = None\<rparr>"

text \<open>The default options under an operation name, as the callers of the repository
  pass them.\<close>

definition named :: "string \<Rightarrow> options" where
  "named name = default_options\<lparr>operationName := name\<rparr>"

text \<open>The options \<^verbatim>\<open>loginWithOAuthCode\<close> passes for the token exchange, and the
  state a fresh handler is left in by one call under them whose four attempts all fail.\<close>

definition oauth_options :: options where
  "oauth_options =
     default_options\<lparr>operationName := ''oauth_token_exchange'', maxRetries := 3,
                      circuitBreakerThreshold := 3\<rparr>"

definition after_oauth_failures :: error_handler where
  "after_oauth_failures =
     handler (retryOperation new_handler 0 (clock_at 0) (draws 0)
                (always_fails failed_fetch) oauth_options)"

text \<open>
  States reached through the handler's own functions. After five tracked
  \<^verbatim>\<open>network\<close> failures of an operation named \<^verbatim>\<open>sync\<close> the entry
  \<^verbatim>\<open>sync_network\<close> has count 5; it is the entry the circuit breaker reads for an operation
  named \<^verbatim>\<open>sync_network\<close>.
\<close>

definition after_five_failures :: error_handler where
  "after_five_failures =
     handler (retryOperation new_handler 0 (clock_at 0) (draws 0)
                (always_fails network_error) ((named ''sync'')\<lparr>maxRetries := 4\<rparr>))"

definition window_open :: error_handler where
  "window_open = fst (applyRateLimit new_handler 0 ''fetchUser'' 60000 10)"

definition tripped_and_limited :: error_handler where
  "tripped_and_limited = fst (applyRateLimit after_five_failures 0 ''sync_network'' 60000 10)"

text \<open>One \<^verbatim>\<open>network\<close> failure of \<^verbatim>\<open>sync\<close>, then a successful call of an operation
  named \<^verbatim>\<open>sync_network\<close>, whose success path deletes the key \<^verbatim>\<open>sync_network\<close> from
  \<^verbatim>\<open>errorCounts\<close> only.\<close>

definition orphaned :: error_handler where
  "orphaned =
     handler (retryOperation
       (handler (retryOperation new_handler 0 (clock_at 0) (draws 0)
                   (always_fails network_error) ((named ''sync'')\<lparr>maxRetries := 0\<rparr>)))
       1 (clock_at 1) (draws 0) (fails_then_returns 0 network_error 42) (named ''sync_network''))"

section \<open>Helper lemmas\<close>

text \<open>The loop is unfolded one step at a time, at the attempt a proof names.\<close>

declare attemptLoop.simps [simp del]

lemmas scenario_defs =
  retryOperation_def checkCircuitBreaker_def new_handler_def named_def default_options_def
  isRateLimited_def always_fails_def fails_then_returns_def clock_at_def draws_def
  trackError_def shouldNotRetry_def getErrorType_def message_includes_def noRetryErrors_def
  throwLast_def tracking_key_def getRetryDelay_def bad_credentials_def network_error_def
  timeout_error_def forbidden_def failed_fetch_def oauth_options_def Let_def attemptLoop.simps

subsection \<open>The scenario states, written out\<close>

lemma after_five_failures_eq:
  "after_five_failures =
     \<lparr>errorCounts = [(''sync_network'', \<lparr>count = 5, firstError = 0, lastError = 0\<rparr>)],
      rateLimits = [],
      lastErrors = [(''sync_network'',
         \<lparr>err = \<lparr>etype = Some ''network'', emessage = Some ''network error'', estatus = None\<rparr>,
          timestamp = 0, le_count = 5\<rparr>)]\<rparr>"
  by (simp add: after_five_failures_def scenario_defs)

lemma after_oauth_failures_eq:
  "after_oauth_failures =
     \<lparr>errorCounts = [(''oauth_token_exchange_general'', \<lparr>count = 4, firstError = 0, lastError = 0\<rparr>)],
      rateLimits = [],
      lastErrors = [(''oauth_token_exchange_general'',
         \<lparr>err = \<lparr>etype = Some ''general'', emessage = Some ''Failed to fetch'', estatus = None\<rparr>,
          timestamp = 0, le_count = 4\<rparr>)]\<rparr>"
  by (simp add: after_oauth_failures_def scenario_defs)

lemma orphaned_eq:
  "orphaned =
     \<lparr>errorCounts = [],
      rateLimits = [],
      lastErrors = [(''sync_network'',
         \<lparr>err = \<lparr>etype = Some ''network'', emessage = Some ''network error'', estatus = None\<rparr>,
          timestamp = 0, le_count = 1\<rparr>)]\<rparr>"
  by (simp add: orphaned_def scenario_defs AList.delete_eq)

lemma window_open_eq:
  "window_open =
     \<lparr>errorCounts = [],
      rateLimits = [(''fetchUser'', \<lparr>rl_count = 1, resetTime = 60000, windowMs = 60000, maxRequests = 10\<rparr>)],
      lastErrors = []\<rparr>"
  by (simp add: window_open_def applyRateLimit_def new_handler_def)

lemma tripped_and_limited_eq:
  "tripped_and_limited =
     \<lparr>errorCounts = [(''sync_network'', \<lparr>count = 5, firstError = 0, lastError = 0\<rparr>)],
      rateLimits = [(''sync_network'', \<lparr>rl_count = 1, resetTime = 60000, windowMs = 60000, maxRequests = 10\<rparr>)],
      lastErrors = [(''sync_network'',
         \<lparr>err = \<lparr>etype = Some ''network'', emessage = Some ''network error'', estatus = None\<rparr>,
          timestamp = 0, le_count = 5\<rparr>)]\<rparr>"
  by (simp add: tripped_and_limited_def after_five_failures_eq applyRateLimit_def)

subsection \<open>Classification\<close>

lemma getErrorType_range:
  "getErrorType e \<in> {''rate_limit'', ''network'', ''auth'', ''permission'', ''not_found'', ''server'', ''general''}"
  by (simp add: getErrorType_def)

lemma retryable_not_exempt:
  "getErrorType e \<notin> {''auth'', ''permission'', ''not_found''} \<Longrightarrow> \<not> shouldNotRetry e"
  using getErrorType_range [of e] by (auto simp add: shouldNotRetry_def noRetryErrors_def)

subsection \<open>The attempt loop\<close>

lemma attemptLoop_invocations:
  "attempt \<le> maxRetries opts \<Longrightarrow>
   Suc attempt \<le> invocations (attemptLoop opts operation clock rnd h lastErr attempt ds) \<and>
   invocations (attemptLoop opts operation clock rnd h lastErr attempt ds) \<le> Suc (maxRetries opts)"
proof (induction opts operation clock rnd h lastErr attempt ds rule: attemptLoop.induct)
  case (1 opts operation clock rnd h lastErr attempt ds)
  show ?case
  proof (cases "operation attempt")
    case (Inr v)
    with "1.prems" show ?thesis
      by (simp add: attemptLoop.simps [of opts operation clock rnd h lastErr attempt ds])
  next
    case (Inl e)
    let ?h' = "fst (trackError h (clock attempt) (operationName opts)
                 \<lparr>etype = Some (getErrorType e), emessage = message e, estatus = status e\<rparr>)"
    show ?thesis
    proof (cases "shouldNotRetry e \<or> attempt = maxRetries opts")
      case True
      with Inl "1.prems" show ?thesis
        by (auto simp add: attemptLoop.simps [of opts operation clock rnd h lastErr attempt ds] Let_def)
    next
      case False
      with "1.prems" have less: "Suc attempt \<le> maxRetries opts" by simp
      from "1.IH" [OF "1.prems" Inl refl] False less
      have "Suc (Suc attempt) \<le> invocations (attemptLoop opts operation clock rnd ?h' (Some e) (Suc attempt)
              (ds @ [getRetryDelay ?h' (rnd attempt) (operationName opts) attempt (maxDelay opts)])) \<and>
            invocations (attemptLoop opts operation clock rnd ?h' (Some e) (Suc attempt)
              (ds @ [getRetryDelay ?h' (rnd attempt) (operationName opts) attempt (maxDelay opts)]))
              \<le> Suc (maxRetries opts)"
        by simp
      with Inl False "1.prems" show ?thesis
        by (simp add: attemptLoop.simps [of opts operation clock rnd h lastErr attempt ds] Let_def)
    qed
  qed
qed

lemma attemptLoop_all_fail:
  assumes "attempt \<le> maxRetries opts"
    and "\<And>k. attempt \<le> k \<Longrightarrow> k \<le> maxRetries opts \<Longrightarrow>
           operation k = Inl (errs k) \<and> \<not> shouldNotRetry (errs k)"
  shows "invocations (attemptLoop opts operation clock rnd h lastErr attempt ds) = Suc (maxRetries opts) \<and>
         outcome (attemptLoop opts operation clock rnd h lastErr attempt ds) =
           Inl (OperationError (errs (maxRetries opts))) \<and>
         length (delays (attemptLoop opts operation clock rnd h lastErr attempt ds)) =
           length ds + (maxRetries opts - attempt) \<and>
         (\<exists>hp. handler (attemptLoop opts operation clock rnd h lastErr attempt ds) =
            fst (trackError hp (clock (maxRetries opts)) (operationName opts)
                   \<lparr>etype = Some (getErrorType (errs (maxRetries opts))),
                    emessage = message (errs (maxRetries opts)),
                    estatus = status (errs (maxRetries opts))\<rparr>))"
  using assms
proof (induction opts operation clock rnd h lastErr attempt ds rule: attemptLoop.induct)
  case (1 opts operation clock rnd h lastErr attempt ds)
  let ?e = "errs attempt"
  let ?h' = "fst (trackError h (clock attempt) (operationName opts)
                 \<lparr>etype = Some (getErrorType ?e), emessage = message ?e, estatus = status ?e\<rparr>)"
  from "1.prems" have here: "operation attempt = Inl ?e" "\<not> shouldNotRetry ?e"
    by simp_all
  show ?case
  proof (cases "attempt = maxRetries opts")
    case True
    with here have "attemptLoop opts operation clock rnd h lastErr attempt ds =
        \<lparr>outcome = Inl (OperationError ?e), handler = ?h', invocations = Suc attempt, delays = ds\<rparr>"
      by (subst attemptLoop.simps) (simp add: Let_def throwLast_def)
    with True show ?thesis by auto
  next
    case False
    with "1.prems"(1) have less: "Suc attempt \<le> maxRetries opts" by simp
    have rest: "\<And>k. Suc attempt \<le> k \<Longrightarrow> k \<le> maxRetries opts \<Longrightarrow>
                  operation k = Inl (errs k) \<and> \<not> shouldNotRetry (errs k)"
      using "1.prems"(2) by simp
    from "1.IH" [OF "1.prems"(1) here(1) refl here(2) False less rest]
    show ?thesis
      using here False "1.prems"(1) less
      by (simp add: attemptLoop.simps [of opts operation clock rnd h lastErr attempt ds] Let_def)
  qed
qed

text \<open>No tracking key is the plain operation name, so a call never creates the entry
  its own circuit breaker reads: from a state without that entry the check passes, and
  the call leaves a state without it.\<close>

lemma tracking_key_not_plain: "tracking_key name e \<noteq> name"
  by (simp add: tracking_key_def)

lemma trackError_plain_name:
  "map_of (errorCounts (fst (trackError h now name e))) name = map_of (errorCounts h) name"
  using tracking_key_not_plain [of name e]
  by (simp add: trackError_def Let_def update_conv')

lemma attemptLoop_plain_name:
  "map_of (errorCounts h) (operationName opts) = None \<Longrightarrow>
   map_of (errorCounts (handler (attemptLoop opts operation clock rnd h lastErr attempt ds)))
     (operationName opts) = None"
proof (induction opts operation clock rnd h lastErr attempt ds rule: attemptLoop.induct)
  case (1 opts operation clock rnd h lastErr attempt ds)
  show ?case
  proof (cases "operation attempt")
    case (Inr v)
    with "1.prems" show ?thesis
      by (simp add: attemptLoop.simps [of opts operation clock rnd h lastErr attempt ds] delete_conv')
  next
    case (Inl e)
    let ?h' = "fst (trackError h (clock attempt) (operationName opts)
                 \<lparr>etype = Some (getErrorType e), emessage = message e, estatus = status e\<rparr>)"
    have absent: "map_of (errorCounts ?h') (operationName opts) = None"
      using "1.prems" by (simp add: trackError_plain_name)
    show ?thesis
    proof (cases "attempt \<le> maxRetries opts \<and> \<not> shouldNotRetry e \<and> attempt \<noteq> maxRetries opts")
      case True
      with "1.IH" [OF _ Inl refl _ _ absent] Inl show ?thesis
        by (simp add: attemptLoop.simps [of opts operation clock rnd h lastErr attempt ds] Let_def)
    next
      case False
      with Inl absent "1.prems" show ?thesis
        by (auto simp add: attemptLoop.simps [of opts operation clock rnd h lastErr attempt ds] Let_def)
    qed
  qed
qed

lemma own_failures_never_open_the_circuit:
  assumes "map_of (errorCounts h) (operationName opts) = None"
  shows "checkCircuitBreaker h now opts = Inr h"
    and "map_of (errorCounts (handler (retryOperation h now clock rnd operation opts)))
           (operationName opts) = None"
  using assms
  by (simp_all add: checkCircuitBreaker_def retryOperation_def attemptLoop_plain_name)

text \<open>An exempt failure ends the loop at once, and only \<^verbatim>\<open>permission\<close> and
  \<^verbatim>\<open>not_found\<close> are exempt.\<close>

lemma attemptLoop_no_retry:
  assumes "attempt \<le> maxRetries opts" and "operation attempt = Inl e" and "shouldNotRetry e"
  shows "invocations (attemptLoop opts operation clock rnd h lastErr attempt ds) = Suc attempt \<and>
         outcome (attemptLoop opts operation clock rnd h lastErr attempt ds) = Inl (OperationError e)"
  using assms by (subst (1 2) attemptLoop.simps) (simp add: Let_def)

lemma exempt_iff:
  "shouldNotRetry e \<longleftrightarrow> getErrorType e = ''permission'' \<or> getErrorType e = ''not_found''"
  using getErrorType_range [of e] by (auto simp add: shouldNotRetry_def noRetryErrors_def)

text \<open>The option \<^verbatim>\<open>baseDelay\<close> is read by nothing.\<close>

lemma attemptLoop_baseDelay:
  "attemptLoop (opts\<lparr>baseDelay := b\<rparr>) operation clock rnd h lastErr attempt ds =
   attemptLoop opts operation clock rnd h lastErr attempt ds"
proof (induction opts operation clock rnd h lastErr attempt ds rule: attemptLoop.induct)
  case (1 opts operation clock rnd h lastErr attempt ds)
  show ?case
  proof (cases "operation attempt")
    case (Inr v)
    then show ?thesis
      by (simp add: attemptLoop.simps [of opts operation clock rnd h lastErr attempt ds]
            attemptLoop.simps [of "opts\<lparr>baseDelay := b\<rparr>" operation clock rnd h lastErr attempt ds])
  next
    case (Inl e)
    show ?thesis
    proof (cases "attempt \<le> maxRetries opts \<and> \<not> shouldNotRetry e \<and> attempt \<noteq> maxRetries opts")
      case True
      with "1.IH" [OF _ Inl refl] Inl show ?thesis
        by (simp add: attemptLoop.simps [of opts operation clock rnd h lastErr attempt ds]
              attemptLoop.simps [of "opts\<lparr>baseDelay := b\<rparr>" operation clock rnd h lastErr attempt ds]
              Let_def)
    next
      case False
      with Inl show ?thesis
        by (auto simp add: attemptLoop.simps [of opts operation clock rnd h lastErr attempt ds]
              attemptLoop.simps [of "opts\<lparr>baseDelay := b\<rparr>" operation clock rnd h lastErr attempt ds]
              Let_def)
    qed
  qed
qed

lemma retryOperation_baseDelay:
  "retryOperation h now clock rnd operation (opts\<lparr>baseDelay := b\<rparr>) =
   retryOperation h now clock rnd operation opts"
  by (simp add: retryOperation_def checkCircuitBreaker_def attemptLoop_baseDelay
        split: option.splits sum.splits)

text \<open>The delay, with the base fixed at 1000 and a draw in \<open>[0, 1)\<close>.\<close>

lemma getRetryDelay_bounds:
  assumes "0 \<le> rnd" and "rnd < 1"
  shows "getRetryDelay h rnd operation attempt maxDel =
           min (1000 * 2 ^ attempt + rnd * 1000) maxDel *
             (1 + real (min (case map_of (errorCounts h) operation of None \<Rightarrow> 0 | Some t \<Rightarrow> count t) 5) / 10)"
    and "min (1000 * 2 ^ attempt) maxDel \<le> min (1000 * 2 ^ attempt + rnd * 1000) maxDel"
    and "min (1000 * 2 ^ attempt + rnd * 1000) maxDel \<le> min (1000 * 2 ^ attempt + 1000) maxDel"
  using assms by (simp_all add: getRetryDelay_def Let_def min_def)

text \<open>A call ends with a result, a fast-fail error or the operation's error: the two
  defensive throws are never reached.\<close>

lemma attemptLoop_throws_operation_error:
  "attempt \<le> maxRetries opts \<Longrightarrow>
   outcome (attemptLoop opts operation clock rnd h lastErr attempt ds) \<noteq> Inl ThrownUndefined \<and>
   outcome (attemptLoop opts operation clock rnd h lastErr attempt ds) \<noteq> Inl TypeError"
proof (induction opts operation clock rnd h lastErr attempt ds rule: attemptLoop.induct)
  case (1 opts operation clock rnd h lastErr attempt ds)
  show ?case
  proof (cases "operation attempt")
    case (Inr v)
    with "1.prems" show ?thesis
      by (simp add: attemptLoop.simps [of opts operation clock rnd h lastErr attempt ds])
  next
    case (Inl e)
    show ?thesis
    proof (cases "shouldNotRetry e \<or> attempt = maxRetries opts")
      case True
      with Inl "1.prems" show ?thesis
        by (auto simp add: attemptLoop.simps [of opts operation clock rnd h lastErr attempt ds]
              Let_def throwLast_def)
    next
      case False
      with "1.prems" have less: "Suc attempt \<le> maxRetries opts" by simp
      from "1.IH" [OF "1.prems" Inl refl] False less Inl "1.prems" show ?thesis
        by (simp add: attemptLoop.simps [of opts operation clock rnd h lastErr attempt ds] Let_def)
    qed
  qed
qed

lemma retryOperation_never_throws_undefined:
  "outcome (retryOperation h now clock rnd operation opts) \<noteq> Inl ThrownUndefined \<and>
   outcome (retryOperation h now clock rnd operation opts) \<noteq> Inl TypeError"
  using attemptLoop_throws_operation_error [of 0 opts operation clock rnd _ None "[]"]
  by (auto simp add: retryOperation_def checkCircuitBreaker_def isRateLimited_def
        split: option.splits sum.splits if_splits)

subsection \<open>Maintenance and status\<close>

lemma clear_key_fields:
  "errorCounts (clear_key name key h) =
     (if prefix name key then filter (\<lambda>entry. fst entry \<noteq> key) (errorCounts h) else errorCounts h)"
  "lastErrors (clear_key name key h) =
     (if prefix name key then filter (\<lambda>entry. fst entry \<noteq> key) (lastErrors h) else lastErrors h)"
  "rateLimits (clear_key name key h) = rateLimits h"
  by (auto simp add: clear_key_def AList.delete_eq intro!: filter_cong)

lemma fold_clear_key:
  "errorCounts (fold (clear_key name) keys h) =
     filter (\<lambda>entry. \<not> (prefix name (fst entry) \<and> fst entry \<in> set keys)) (errorCounts h) \<and>
   lastErrors (fold (clear_key name) keys h) =
     filter (\<lambda>entry. \<not> (prefix name (fst entry) \<and> fst entry \<in> set keys)) (lastErrors h) \<and>
   rateLimits (fold (clear_key name) keys h) = rateLimits h"
proof (induction keys arbitrary: h)
  case Nil
  show ?case by simp
next
  case (Cons key keys)
  show ?case
    by (auto simp add: Cons.IH clear_key_fields intro!: filter_cong)
qed

text \<open>What \<^verbatim>\<open>clearErrors\<close> does to the three Maps.\<close>

lemma clearErrors_effect:
  "(name \<noteq> [] \<longrightarrow>
      errorCounts (clearErrors h (Some name)) =
        filter (\<lambda>entry. \<not> prefix name (fst entry)) (errorCounts h) \<and>
      lastErrors (clearErrors h (Some name)) =
        filter (\<lambda>entry. \<not> (prefix name (fst entry) \<and> fst entry \<in> fst ` set (errorCounts h)))
          (lastErrors h)) \<and>
   errorCounts (clearErrors h None) = [] \<and>
   lastErrors (clearErrors h None) = [] \<and>
   clearErrors h (Some []) = clearErrors h None \<and>
   rateLimits (clearErrors h operation) = rateLimits h"
proof -
  have rl: "rateLimits (clearErrors h operation) = rateLimits h"
    by (cases operation) (simp_all add: clearErrors_def fold_clear_key)
  have ec: "name \<noteq> [] \<Longrightarrow> errorCounts (clearErrors h (Some name)) =
              filter (\<lambda>entry. \<not> prefix name (fst entry)) (errorCounts h)"
    by (auto simp add: clearErrors_def fold_clear_key intro!: filter_cong)
  have le: "name \<noteq> [] \<Longrightarrow> lastErrors (clearErrors h (Some name)) =
              filter (\<lambda>entry. \<not> (prefix name (fst entry) \<and> fst entry \<in> fst ` set (errorCounts h)))
                (lastErrors h)"
    by (simp add: clearErrors_def fold_clear_key)
  from rl ec le show ?thesis
    by (simp add: clearErrors_def)
qed

lemma map_of_limit_entries:
  "map_of (map (limit_entry now) limits) operation =
     map_option (\<lambda>limit. snd (limit_entry now (operation, limit))) (map_of limits operation)"
  by (induction limits) (auto simp add: limit_entry_def)


subsection \<open>Strings\<close>

text \<open>\<^const>\<open>str_includes\<close> is the contiguous-sublist relation of the library.\<close>

lemma str_includes_sublist: "str_includes s sub = sublist sub s"
  by (induction s) (auto simp add: sublist_Cons_right)

text \<open>The first piece of a split is what precedes the first underscore; the other
  pieces are the split of what follows it.\<close>

lemma split_underscore_unfold:
  "split_underscore s =
     takeWhile (\<lambda>c. c \<noteq> CHR ''_'') s #
       (case dropWhile (\<lambda>c. c \<noteq> CHR ''_'') s of
          [] \<Rightarrow> []
        | c # rest \<Rightarrow> split_underscore rest)"
  by (induction s) simp_all

lemma key_segments:
  assumes "CHR ''_'' \<in> set name"
  shows "at_index (split_underscore (name @ CHR ''_'' # ty)) 0 =
           Some (takeWhile (\<lambda>c. c \<noteq> CHR ''_'') name)"
    and "at_index (split_underscore (name @ CHR ''_'' # ty)) 1 =
           Some (takeWhile (\<lambda>c. c \<noteq> CHR ''_'') (tl (dropWhile (\<lambda>c. c \<noteq> CHR ''_'') name)))"
proof -
  let ?p = "\<lambda>c. c \<noteq> CHR ''_''"
  from assms have tw: "takeWhile ?p (name @ CHR ''_'' # ty) = takeWhile ?p name"
    by (intro takeWhile_append1 [of "CHR ''_''"]) simp_all
  from assms have dw: "dropWhile ?p (name @ CHR ''_'' # ty) = dropWhile ?p name @ CHR ''_'' # ty"
    by (intro dropWhile_append1 [of "CHR ''_''"]) simp_all
  from assms have "dropWhile ?p name \<noteq> []"
    by (auto simp add: dropWhile_eq_Nil_conv)
  then obtain c rest where cr: "dropWhile ?p name = c # rest"
    by (cases "dropWhile ?p name") auto
  have first: "split_underscore (name @ CHR ''_'' # ty) =
      takeWhile ?p name # split_underscore (rest @ CHR ''_'' # ty)"
    by (subst split_underscore_unfold) (simp add: tw dw cr)
  have second: "split_underscore (rest @ CHR ''_'' # ty) =
      takeWhile ?p rest # (case dropWhile ?p (rest @ CHR ''_'' # ty) of [] \<Rightarrow> [] | c # r \<Rightarrow> split_underscore r)"
    by (subst split_underscore_unfold) (simp add: takeWhile_tail)
  show "at_index (split_underscore (name @ CHR ''_'' # ty)) 0 = Some (takeWhile ?p name)"
    by (simp add: first at_index_def)
  show "at_index (split_underscore (name @ CHR ''_'' # ty)) 1 =
          Some (takeWhile ?p (tl (dropWhile ?p name)))"
    by (simp add: first second at_index_def cr)
qed

subsection \<open>Statistics\<close>

text \<open>No piece of a split contains an underscore, and the first piece is what precedes
  the first underscore.\<close>

lemma split_underscore_nonempty: "split_underscore s \<noteq> []"
  by (subst split_underscore_unfold) simp

lemma split_underscore_pieces:
  "p \<in> set (split_underscore s) \<Longrightarrow> CHR ''_'' \<notin> set p"
proof (induction s arbitrary: p)
  case Nil
  then show ?case by simp
next
  case (Cons c cs)
  show ?case
  proof (cases "c = CHR ''_''")
    case True
    with Cons show ?thesis by auto
  next
    case False
    obtain w ws where parts: "split_underscore cs = w # ws"
      using split_underscore_nonempty [of cs] by (cases "split_underscore cs") auto
    with Cons.prems False have "p = c # w \<or> p \<in> set ws" by simp
    with Cons.IH parts False show ?thesis by auto
  qed
qed

lemma at_index_0_split:
  "at_index (split_underscore s) 0 = Some (takeWhile (\<lambda>c. c \<noteq> CHR ''_'') s)"
  by (subst split_underscore_unfold) (simp add: at_index_def)

lemma stats_name_has_no_underscore:
  "CHR ''_'' \<notin> set (property_name (at_index (split_underscore s) i))"
proof (cases "i < length (split_underscore s)")
  case True
  from split_underscore_pieces [OF nth_mem [OF True]] True show ?thesis
    by (simp add: at_index_def property_name_def)
next
  case False
  then show ?thesis by (simp add: at_index_def property_name_def)
qed

text \<open>What a table holds under a name after a run of additions.\<close>

lemma add_count_same:
  "add_count k n obj k =
     (case obj k of
        Some (NumberValue c) \<Rightarrow> Some (NumberValue (c + n))
      | Some StringValue \<Rightarrow> Some StringValue
      | None \<Rightarrow>
          if k = ''__proto__'' then None
          else if k \<in> set object_prototype_names then Some StringValue
          else Some (NumberValue n))"
  by (simp add: add_count_def split: option.splits table_value.splits)

lemma add_count_other: "k' \<noteq> k \<Longrightarrow> add_count k' n obj k = obj k"
  by (auto simp add: add_count_def split: option.splits table_value.splits)

lemma filter_no_key: "k \<notin> f ` set xs \<Longrightarrow> filter (\<lambda>x. f x = k) xs = []"
  by (auto simp add: filter_empty_conv)

lemma fold_add_count:
  "fold (\<lambda>x. add_count (f x) (g x)) xs obj k =
     (if k \<notin> f ` set xs then obj k
      else case obj k of
             Some (NumberValue c) \<Rightarrow> Some (NumberValue (c + (\<Sum>x\<leftarrow>filter (\<lambda>x. f x = k) xs. g x)))
           | Some StringValue \<Rightarrow> Some StringValue
           | None \<Rightarrow>
               if k = ''__proto__'' then None
               else if k \<in> set object_prototype_names then Some StringValue
               else Some (NumberValue (\<Sum>x\<leftarrow>filter (\<lambda>x. f x = k) xs. g x)))"
proof (induction xs arbitrary: obj)
  case Nil
  show ?case by simp
next
  case (Cons x xs)
  have step: "fold (\<lambda>x. add_count (f x) (g x)) (x # xs) obj k =
      fold (\<lambda>x. add_count (f x) (g x)) xs (add_count (f x) (g x) obj) k"
    by simp
  show ?case
  proof (cases "f x = k")
    case False
    then show ?thesis
      unfolding step Cons.IH
      by (auto simp add: add_count_other split: option.splits table_value.splits)
  next
    case True
    have here: "f x = k" by (rule True)
    show ?thesis
    proof (cases "obj k")
      case None
      with here show ?thesis
        unfolding step Cons.IH
        by (auto simp add: add_count_same filter_no_key)
    next
      case (Some v)
      show ?thesis
      proof (cases v)
        case (NumberValue c)
        with Some here show ?thesis
          unfolding step Cons.IH
          by (simp add: add_count_same filter_no_key)
      next
        case StringValue
        with Some here show ?thesis
          unfolding step Cons.IH
          by (simp add: add_count_same)
      qed
    qed
  qed
qed

text \<open>The loop of \<^verbatim>\<open>getErrorStats\<close> over \<^verbatim>\<open>errorCounts\<close> is one run of additions per
  table, over all entries.\<close>

lemma fold_count_entry:
  "errorsByType (fold count_entry xs stats) =
     fold (\<lambda>entry. add_count (property_name (at_index (split_underscore (fst entry)) 1)) (count (snd entry)))
       xs (errorsByType stats)"
  "errorsByOperation (fold count_entry xs stats) =
     fold (\<lambda>entry. add_count (property_name (at_index (split_underscore (fst entry)) 0)) (count (snd entry)))
       xs (errorsByOperation stats)"
  "totalErrors (fold count_entry xs stats) = totalErrors stats + (\<Sum>entry\<leftarrow>xs. count (snd entry))"
  by (induction xs arbitrary: stats) (simp_all add: count_entry_def Let_def)

lemma getErrorStats_tables:
  "errorsByType (getErrorStats h now) =
     fold (\<lambda>entry. add_count (property_name (at_index (split_underscore (fst entry)) 1)) (count (snd entry)))
       (errorCounts h) Map.empty"
  "errorsByOperation (getErrorStats h now) =
     fold (\<lambda>entry. add_count (property_name (at_index (split_underscore (fst entry)) 0)) (count (snd entry)))
       (errorCounts h) Map.empty"
  "totalErrors (getErrorStats h now) = (\<Sum>entry\<leftarrow>errorCounts h. count (snd entry))"
  by (simp_all add: getErrorStats_def Let_def fold_count_entry)

lemmas stats_defs =
  getErrorStats_def count_entry_def add_count_def at_index_def property_name_def
  object_prototype_names_def

text \<open>An operation named like an inherited property: its bucket holds a string.\<close>

lemma inherited_name_gets_a_string:
  "errorsByOperation (getErrorStats
     (handler (retryOperation new_handler 0 (clock_at 0) (draws 0) (always_fails network_error)
                ((named ''toString'')\<lparr>maxRetries := 1\<rparr>))) 1) ''toString'' = Some StringValue \<and>
   errorsByType (getErrorStats
     (handler (retryOperation new_handler 0 (clock_at 0) (draws 0) (always_fails network_error)
                ((named ''toString'')\<lparr>maxRetries := 1\<rparr>))) 1) ''network'' = Some (NumberValue 2)"
  by (simp add: scenario_defs stats_defs)

section \<open>The claims\<close>

text \<open>
  Claim C1 says that once the failures accumulated for an operation name reach
  \<^verbatim>\<open>circuitBreakerThreshold\<close>, a call within the cooldown throws the circuit-breaker
  error without invoking the operation. \<^verbatim>\<open>trackError\<close> files every failure under
  \<^verbatim>\<open>operationName_type\<close>; the circuit breaker looks under \<^verbatim>\<open>operationName\<close>, where
  \<^verbatim>\<open>retryOperation\<close> never writes. With the options of the token exchange (threshold 3,
  \<^verbatim>\<open>maxRetries = 3\<close>), a first call records four failures under
  \<^verbatim>\<open>oauth_token_exchange_general\<close> and nothing under \<^verbatim>\<open>oauth_token_exchange\<close>; a second
  call one millisecond later passes the circuit-breaker check and invokes the operation
  four times more.
\<close>

theorem C1_recorded_failures_never_open_the_circuit:
  "circuitBreakerThreshold oauth_options = 3 \<and>
   circuitBreakerTimeout oauth_options = 60000 \<and>
   invocations (retryOperation new_handler 0 (clock_at 0) (draws 0)
                  (always_fails failed_fetch) oauth_options) = 4 \<and>
   map_of (errorCounts after_oauth_failures) ''oauth_token_exchange_general'' =
     Some \<lparr>count = 4, firstError = 0, lastError = 0\<rparr> \<and>
   map_of (errorCounts after_oauth_failures) ''oauth_token_exchange'' = None \<and>
   checkCircuitBreaker after_oauth_failures 1 oauth_options = Inr after_oauth_failures \<and>
   invocations (retryOperation after_oauth_failures 1 (clock_at 1) (draws 0)
                  (always_fails failed_fetch) oauth_options) = 4 \<and>
   outcome (retryOperation after_oauth_failures 1 (clock_at 1) (draws 0)
              (always_fails failed_fetch) oauth_options) = Inl (OperationError failed_fetch)"
  by (simp add: after_oauth_failures_def scenario_defs)

text \<open>
  Claim C2 says that a failure classified \<^verbatim>\<open>auth\<close>, \<^verbatim>\<open>permission\<close> or \<^verbatim>\<open>not_found\<close>
  is attempted exactly once. The list \<^verbatim>\<open>noRetryErrors\<close> of the source holds
  \<^verbatim>\<open>'authentication'\<close>, a string \<^verbatim>\<open>getErrorType\<close> never returns (it returns
  \<^verbatim>\<open>'auth'\<close>), so an \<^verbatim>\<open>auth\<close> failure is retried like any other. On a fresh handler,
  an operation that always rejects with status 401 and the message "Bad credentials"
  classifies as \<^verbatim>\<open>auth\<close>, is not exempt from retry, and with \<^verbatim>\<open>maxRetries = 3\<close> is
  invoked four times; one that rejects with status 403 (\<^verbatim>\<open>permission\<close>) is invoked
  once.
\<close>

theorem C2_auth_failure_is_retried:
  "getErrorType bad_credentials = ''auth'' \<and>
   shouldNotRetry bad_credentials = False \<and>
   maxRetries (named ''fetchUser'') = 3 \<and>
   invocations (retryOperation new_handler 0 (clock_at 0) (draws 0)
                  (always_fails bad_credentials) (named ''fetchUser'')) = 4 \<and>
   getErrorType forbidden = ''permission'' \<and>
   invocations (retryOperation new_handler 0 (clock_at 0) (draws 0)
                  (always_fails forbidden) (named ''fetchUser'')) = 1"
  by (simp add: scenario_defs)

text \<open>
  Claim C3 says that after a successful call no error-tracking state of the operation
  is left. Failures are recorded under the key \<^verbatim>\<open>operationName_type\<close>, while success
  deletes the key \<^verbatim>\<open>operationName\<close>. In the end-to-end scenario of the specification
  (two \<^verbatim>\<open>network\<close> failures, then success, \<^verbatim>\<open>maxRetries = 3\<close>) the call returns the
  value after three invocations, and the entry \<^verbatim>\<open>fetchUser_network\<close> with count 2 is
  still in \<^verbatim>\<open>errorCounts\<close>.
\<close>

theorem C3_success_leaves_failure_history:
  "outcome (retryOperation new_handler 0 (clock_at 7) (draws 0)
              (fails_then_returns 2 network_error 42) (named ''fetchUser'')) = Inr 42 \<and>
   invocations (retryOperation new_handler 0 (clock_at 7) (draws 0)
              (fails_then_returns 2 network_error 42) (named ''fetchUser'')) = 3 \<and>
   errorCounts (handler (retryOperation new_handler 0 (clock_at 7) (draws 0)
              (fails_then_returns 2 network_error 42) (named ''fetchUser''))) =
     [(''fetchUser_network'', \<lparr>count = 2, firstError = 7, lastError = 7\<rparr>)]"
  by (simp add: scenario_defs AList.delete_eq)

text \<open>
  Claim C4 says that an operation that always fails with a retryable classification is
  invoked \<^verbatim>\<open>maxRetries + 1\<close> times. The two gates come first: with a rate-limit
  window open for the name (one call of \<^verbatim>\<open>applyRateLimit\<close> opens it), a call with
  \<^verbatim>\<open>maxRetries = 3\<close> and an always failing operation of classification \<^verbatim>\<open>general\<close>
  throws the rate-limit error and invokes the operation zero times.
\<close>

theorem C4_rate_limited_call_makes_no_attempt:
  "getErrorType timeout_error = ''general'' \<and>
   maxRetries (named ''fetchUser'') = 3 \<and>
   invocations (retryOperation window_open 1 (clock_at 1) (draws 0)
                  (always_fails timeout_error) (named ''fetchUser'')) = 0 \<and>
   outcome (retryOperation window_open 1 (clock_at 1) (draws 0)
                  (always_fails timeout_error) (named ''fetchUser'')) =
     Inl (RateLimitExceeded ''fetchUser'' 60000)"
  by (simp add: window_open_eq scenario_defs)

text \<open>
  Claim C4, amended. For a call that passes the circuit-breaker check and is not rate
  limited, if every invocation up to index \<^verbatim>\<open>maxRetries\<close> rejects with an error whose
  classification is not \<^verbatim>\<open>auth\<close>, \<^verbatim>\<open>permission\<close> or \<^verbatim>\<open>not_found\<close>, the operation is
  invoked exactly \<^verbatim>\<open>maxRetries + 1\<close> times, \<^verbatim>\<open>maxRetries\<close> delays are waited for, the
  call throws the error of the last invocation, and that error is the one stored in
  \<^verbatim>\<open>lastErrors\<close> under its tracking key.
\<close>

theorem C4_retryable_failures_use_every_attempt:
  assumes "checkCircuitBreaker h now opts = Inr h1"
    and "\<not> isRateLimited h1 now (operationName opts)"
    and "\<forall>k\<le>maxRetries opts.
           operation k = Inl (errs k) \<and>
           getErrorType (errs k) \<notin> {''auth'', ''permission'', ''not_found''}"
  shows "invocations (retryOperation h now clock rnd operation opts) = maxRetries opts + 1 \<and>
         outcome (retryOperation h now clock rnd operation opts) =
           Inl (OperationError (errs (maxRetries opts))) \<and>
         length (delays (retryOperation h now clock rnd operation opts)) = maxRetries opts \<and>
         map_option err
           (map_of (lastErrors (handler (retryOperation h now clock rnd operation opts)))
              (operationName opts @ ''_'' @ getErrorType (errs (maxRetries opts)))) =
           Some \<lparr>etype = Some (getErrorType (errs (maxRetries opts))),
                 emessage = message (errs (maxRetries opts)),
                 estatus = status (errs (maxRetries opts))\<rparr>"
proof -
  let ?last = "errs (maxRetries opts)"
  let ?te = "\<lparr>etype = Some (getErrorType ?last), emessage = message ?last, estatus = status ?last\<rparr>"
  have run: "retryOperation h now clock rnd operation opts =
               attemptLoop opts operation clock rnd h1 None 0 []"
    using assms(1,2) by (simp add: retryOperation_def)
  have fails: "\<And>k. 0 \<le> k \<Longrightarrow> k \<le> maxRetries opts \<Longrightarrow>
                 operation k = Inl (errs k) \<and> \<not> shouldNotRetry (errs k)"
    using assms(3) by (simp add: retryable_not_exempt)
  from attemptLoop_all_fail [of 0 opts operation errs clock rnd h1 None "[]", OF _ fails]
  have loop: "invocations (attemptLoop opts operation clock rnd h1 None 0 []) = Suc (maxRetries opts)"
      "outcome (attemptLoop opts operation clock rnd h1 None 0 []) = Inl (OperationError ?last)"
      "length (delays (attemptLoop opts operation clock rnd h1 None 0 [])) = maxRetries opts"
      "\<exists>hp. handler (attemptLoop opts operation clock rnd h1 None 0 []) =
              fst (trackError hp (clock (maxRetries opts)) (operationName opts) ?te)"
    by simp_all
  from loop(4) obtain hp where
    hp: "handler (attemptLoop opts operation clock rnd h1 None 0 []) =
           fst (trackError hp (clock (maxRetries opts)) (operationName opts) ?te)"
    by blast
  have nonempty: "getErrorType ?last \<noteq> []"
    using getErrorType_range [of ?last] by auto
  have recorded: "map_option err
      (map_of (lastErrors (fst (trackError hp (clock (maxRetries opts)) (operationName opts) ?te)))
         (operationName opts @ ''_'' @ getErrorType ?last)) = Some ?te"
    using nonempty by (simp add: trackError_def tracking_key_def Let_def update_conv')
  show ?thesis
    using loop(1,2,3) recorded by (simp add: run hp)
qed

theorem C4_retryable_failures_use_every_attempt_witness:
  "invocations (retryOperation new_handler 0 (clock_at 0) (draws 0)
                  (always_fails timeout_error) (named ''fetchUser'')) = 4 \<and>
   outcome (retryOperation new_handler 0 (clock_at 0) (draws 0)
                  (always_fails timeout_error) (named ''fetchUser'')) =
     Inl (OperationError timeout_error) \<and>
   length (delays (retryOperation new_handler 0 (clock_at 0) (draws 0)
                  (always_fails timeout_error) (named ''fetchUser''))) = 3"
proof -
  let ?opts = "named ''fetchUser''"
  have gate: "checkCircuitBreaker new_handler 0 ?opts = Inr new_handler"
    by (simp add: checkCircuitBreaker_def new_handler_def)
  have free: "\<not> isRateLimited new_handler 0 (operationName ?opts)"
    by (simp add: isRateLimited_def new_handler_def)
  have fails: "\<forall>k\<le>maxRetries ?opts.
       always_fails timeout_error k = Inl (timeout_error) \<and>
       getErrorType timeout_error \<notin> {''auth'', ''permission'', ''not_found''}"
    by (simp add: always_fails_def getErrorType_def message_includes_def timeout_error_def)
  from C4_retryable_failures_use_every_attempt [of new_handler 0 ?opts new_handler
         "always_fails timeout_error" "\<lambda>k. timeout_error" "clock_at 0" "draws 0", OF gate free fails]
  show ?thesis
    by (simp add: named_def default_options_def)
qed

text \<open>
  Claim C5: from a state with no window for the operation name, three calls of
  \<^verbatim>\<open>applyRateLimit(name, 1000, 2)\<close>, the second and third before the reset time of the
  window the first one opened, return false, false, true; a fourth call at or after
  that reset time returns false and leaves the window with count 1 and a reset time
  1000 ms after the fourth call.
\<close>

theorem C5_applyRateLimit_window:
  assumes "map_of (rateLimits h0) operation = None"
    and "t2 < t1 + 1000" and "t3 < t1 + 1000" and "t1 + 1000 \<le> t4"
  shows "let c1 = applyRateLimit h0 t1 operation 1000 2;
             c2 = applyRateLimit (fst c1) t2 operation 1000 2;
             c3 = applyRateLimit (fst c2) t3 operation 1000 2;
             c4 = applyRateLimit (fst c3) t4 operation 1000 2
         in [snd c1, snd c2, snd c3, snd c4] = [False, False, True, False] \<and>
            map_of (rateLimits (fst c1)) operation =
              Some \<lparr>rl_count = 1, resetTime = t1 + 1000, windowMs = 1000, maxRequests = 2\<rparr> \<and>
            map_of (rateLimits (fst c4)) operation =
              Some \<lparr>rl_count = 1, resetTime = t4 + 1000, windowMs = 1000, maxRequests = 2\<rparr>"
  using assms by (simp add: applyRateLimit_def update_conv' Let_def)

theorem C5_applyRateLimit_window_witness:
  "let c1 = applyRateLimit new_handler 0 ''x'' 1000 2;
       c2 = applyRateLimit (fst c1) 10 ''x'' 1000 2;
       c3 = applyRateLimit (fst c2) 999 ''x'' 1000 2;
       c4 = applyRateLimit (fst c3) 1000 ''x'' 1000 2
   in [snd c1, snd c2, snd c3, snd c4] = [False, False, True, False] \<and>
      map_of (rateLimits (fst c1)) ''x'' =
        Some \<lparr>rl_count = 1, resetTime = 1000, windowMs = 1000, maxRequests = 2\<rparr> \<and>
      map_of (rateLimits (fst c4)) ''x'' =
        Some \<lparr>rl_count = 1, resetTime = 2000, windowMs = 1000, maxRequests = 2\<rparr>"
  using C5_applyRateLimit_window [of new_handler "''x''" 10 0 999 1000]
  by (simp add: new_handler_def)

text \<open>
  Claim C6 bounds the delay by the configured \<^verbatim>\<open>baseDelay\<close>. \<^verbatim>\<open>retryOperation\<close>
  reads the option and never passes it on: \<^verbatim>\<open>getRetryDelay\<close> works from its own
  constant 1000. With \<^verbatim>\<open>baseDelay = 100\<close>, attempt 0, a draw of 0.5 and no failure
  history under the operation name, the delay is 1500, above the claimed upper end
  \<^verbatim>\<open>(100 * 2^0 + 1000) * 1 = 1100\<close>.
\<close>

theorem C6_configured_base_delay_is_ignored:
  "baseDelay ((named ''fetchUser'')\<lparr>baseDelay := 100, maxRetries := 1\<rparr>) = 100 \<and>
   delays (retryOperation new_handler 0 (clock_at 0) (draws (1 / 2))
             (always_fails timeout_error) ((named ''fetchUser'')\<lparr>baseDelay := 100, maxRetries := 1\<rparr>)) = [1500] \<and>
   (100 * 2 ^ 0 + 1000) * (1 + real (min 0 5) * (1 / 10)) < (1500 :: real)"
  by (simp add: scenario_defs)

text \<open>
  Claim C7 ends with: every error with status 401 whose message contains "network"
  classifies as \<^verbatim>\<open>network\<close>. The check for "rate limit" comes before the check for
  "network": the message "network rate limit" with status 401 classifies as
  \<^verbatim>\<open>rate_limit\<close>.
\<close>

theorem C7_rate_limit_precedes_network:
  "message_includes \<lparr>message = Some ''network rate limit'', status = Some 401\<rparr> ''network'' = True \<and>
   status \<lparr>message = Some ''network rate limit'', status = Some 401\<rparr> = Some 401 \<and>
   getErrorType \<lparr>message = Some ''network rate limit'', status = Some 401\<rparr> = ''rate_limit''"
  by (simp add: getErrorType_def message_includes_def)

text \<open>
  Claim C7, amended. The four message checks are tried in the order rate limit, network,
  authentication, permission, and the first that matches decides; only when none matches
  does the status decide (401, 403, 404, 429, at least 500, else \<^verbatim>\<open>general\<close>). So
  when a message check matches, the status is irrelevant; and an error with status 401
  whose message contains "network" is never \<^verbatim>\<open>auth\<close>: it is \<^verbatim>\<open>network\<close>, unless the
  message also contains "rate limit", when it is \<^verbatim>\<open>rate_limit\<close>.
\<close>

theorem C7_message_checks_precede_status_checks:
  "(message_includes e ''rate limit'' \<longrightarrow> getErrorType e = ''rate_limit'') \<and>
   (\<not> message_includes e ''rate limit'' \<and> message_includes e ''network'' \<longrightarrow>
      getErrorType e = ''network'') \<and>
   (\<not> message_includes e ''rate limit'' \<and> \<not> message_includes e ''network'' \<and>
    message_includes e ''authentication'' \<longrightarrow> getErrorType e = ''auth'') \<and>
   (\<not> message_includes e ''rate limit'' \<and> \<not> message_includes e ''network'' \<and>
    \<not> message_includes e ''authentication'' \<and> message_includes e ''permission'' \<longrightarrow>
      getErrorType e = ''permission'') \<and>
   (\<not> message_includes e ''rate limit'' \<and> \<not> message_includes e ''network'' \<and>
    \<not> message_includes e ''authentication'' \<and> \<not> message_includes e ''permission'' \<longrightarrow>
      getErrorType e =
        (case status e of
           None \<Rightarrow> ''general''
         | Some st \<Rightarrow>
             if st = 401 then ''auth'' else if st = 403 then ''permission''
             else if st = 404 then ''not_found'' else if st = 429 then ''rate_limit''
             else if 500 \<le> st then ''server'' else ''general'')) \<and>
   (message_includes e ''rate limit'' \<or> message_includes e ''network'' \<or>
    message_includes e ''authentication'' \<or> message_includes e ''permission'' \<longrightarrow>
      getErrorType (e\<lparr>status := st'\<rparr>) = getErrorType e) \<and>
   (status e = Some 401 \<and> message_includes e ''network'' \<longrightarrow>
      getErrorType e \<noteq> ''auth'' \<and>
      getErrorType e = (if message_includes e ''rate limit'' then ''rate_limit'' else ''network''))"
  by (auto simp add: getErrorType_def message_includes_def split: option.splits)

theorem C7_message_checks_precede_status_checks_witness:
  "getErrorType \<lparr>message = Some ''API rate limit exceeded'', status = Some 403\<rparr> = ''rate_limit'' \<and>
   getErrorType \<lparr>message = Some ''network timeout'', status = Some 401\<rparr> = ''network'' \<and>
   getErrorType \<lparr>message = Some ''authentication required'', status = Some 500\<rparr> = ''auth'' \<and>
   getErrorType \<lparr>message = Some ''permission denied'', status = Some 404\<rparr> = ''permission'' \<and>
   getErrorType \<lparr>message = Some ''Bad credentials'', status = Some 401\<rparr> = ''auth'' \<and>
   getErrorType \<lparr>message = Some ''network timeout'', status = Some 500\<rparr> = ''network''"
  using C7_message_checks_precede_status_checks
          [of "\<lparr>message = Some ''API rate limit exceeded'', status = Some 403\<rparr>" None]
        C7_message_checks_precede_status_checks
          [of "\<lparr>message = Some ''network timeout'', status = Some 401\<rparr>" "Some 500"]
        C7_message_checks_precede_status_checks
          [of "\<lparr>message = Some ''authentication required'', status = Some 500\<rparr>" None]
        C7_message_checks_precede_status_checks
          [of "\<lparr>message = Some ''permission denied'', status = Some 404\<rparr>" None]
        C7_message_checks_precede_status_checks
          [of "\<lparr>message = Some ''Bad credentials'', status = Some 401\<rparr>" None]
  by (simp add: message_includes_def)

text \<open>
  Claim C8 says that \<^verbatim>\<open>clearErrors(name)\<close> deletes exactly the entries of both Maps
  whose key starts with the name. The loop runs over the keys of \<^verbatim>\<open>errorCounts\<close> only,
  and deletes from \<^verbatim>\<open>lastErrors\<close> what it meets there. In the state \<^const>\<open>orphaned\<close>
  (one \<^verbatim>\<open>network\<close> failure of \<^verbatim>\<open>sync\<close>, then a successful call named
  \<^verbatim>\<open>sync_network\<close>) the key \<^verbatim>\<open>sync_network\<close> is in \<^verbatim>\<open>lastErrors\<close> and no longer in
  \<^verbatim>\<open>errorCounts\<close>; it starts with \<^verbatim>\<open>sync\<close>, and \<^verbatim>\<open>clearErrors('sync')\<close> leaves
  \<^verbatim>\<open>lastErrors\<close> as it was, while \<^verbatim>\<open>clearErrors()\<close> empties it.
\<close>

theorem C8_orphaned_last_error_survives:
  "prefix ''sync'' ''sync_network'' \<and>
   map_of (lastErrors orphaned) ''sync_network'' =
     Some \<lparr>err = \<lparr>etype = Some ''network'', emessage = Some ''network error'', estatus = None\<rparr>,
           timestamp = 0, le_count = 1\<rparr> \<and>
   errorCounts orphaned = [] \<and>
   lastErrors (clearErrors orphaned (Some ''sync'')) = lastErrors orphaned \<and>
   lastErrors (clearErrors orphaned None) = []"
  by (simp add: orphaned_eq clearErrors_def)

text \<open>
  Claim C9 says in passing that on such a state \<^verbatim>\<open>retryOperation\<close> fails fast with the
  rate-limit error. The circuit breaker is checked first: in the state
  \<^const>\<open>tripped_and_limited\<close> the window of \<^verbatim>\<open>sync_network\<close> has count 1 of 10 and a
  reset time in the future, \<^verbatim>\<open>isRateLimited\<close> is true, and the call throws the
  circuit-breaker error.
\<close>

theorem C9_open_circuit_hides_the_rate_limit:
  "map_of (rateLimits tripped_and_limited) ''sync_network'' =
     Some \<lparr>rl_count = 1, resetTime = 60000, windowMs = 60000, maxRequests = 10\<rparr> \<and>
   isRateLimited tripped_and_limited 1 ''sync_network'' = True \<and>
   outcome (retryOperation tripped_and_limited 1 (clock_at 1) (draws 0)
              (always_fails network_error) (named ''sync_network'')) =
     Inl (CircuitOpen ''sync_network'')"
  by (simp add: tripped_and_limited_eq scenario_defs)

text \<open>
  Claim C9, amended. For an operation name whose window has a reset time in the future
  and a count below \<^verbatim>\<open>maxRequests\<close>: \<^verbatim>\<open>isRateLimited\<close> returns true,
  \<^verbatim>\<open>getRateLimitStatus\<close> reports \<^verbatim>\<open>isLimited = false\<close> for it, and a call of
  \<^verbatim>\<open>retryOperation\<close> under that name never invokes the operation: when its
  circuit-breaker check lets it through it throws the rate-limit error carrying the
  window's reset time.
\<close>

theorem C9_rate_limit_predicates_disagree:
  assumes "map_of (rateLimits h) operationNm = Some limit"
    and "now < resetTime limit"
    and "rl_count limit < maxRequests limit"
  shows "isRateLimited h now operationNm = True \<and>
         map_option isLimited (map_of (getRateLimitStatus h now) operationNm) = Some False \<and>
         (\<forall>h1. operationName opts = operationNm \<and> checkCircuitBreaker h now opts = Inr h1 \<longrightarrow>
            retryOperation h now clock rnd operation opts =
              \<lparr>outcome = Inl (RateLimitExceeded operationNm (resetTime limit)), handler = h1,
               invocations = 0, delays = []\<rparr>) \<and>
         (operationName opts = operationNm \<longrightarrow>
            invocations (retryOperation h now clock rnd operation opts) = 0)"
proof (intro conjI allI impI)
  show "isRateLimited h now operationNm = True"
    using assms by (simp add: isRateLimited_def)
next
  show "map_option isLimited (map_of (getRateLimitStatus h now) operationNm) = Some False"
    using assms by (simp add: getRateLimitStatus_def map_of_limit_entries limit_entry_def)
next
  fix h1
  assume pass: "operationName opts = operationNm \<and> checkCircuitBreaker h now opts = Inr h1"
  then have "rateLimits h1 = rateLimits h"
    by (auto simp add: checkCircuitBreaker_def split: option.splits if_splits)
  with pass assms show "retryOperation h now clock rnd operation opts =
      \<lparr>outcome = Inl (RateLimitExceeded operationNm (resetTime limit)), handler = h1,
       invocations = 0, delays = []\<rparr>"
    by (simp add: retryOperation_def isRateLimited_def)
next
  assume name: "operationName opts = operationNm"
  show "invocations (retryOperation h now clock rnd operation opts) = 0"
  proof (cases "checkCircuitBreaker h now opts")
    case (Inl e)
    then show ?thesis by (simp add: retryOperation_def)
  next
    case (Inr h1)
    then have "rateLimits h1 = rateLimits h"
      by (auto simp add: checkCircuitBreaker_def split: option.splits if_splits)
    with Inr name assms show ?thesis
      by (simp add: retryOperation_def isRateLimited_def)
  qed
qed

theorem C9_rate_limit_predicates_disagree_witness:
  "isRateLimited window_open 1 ''fetchUser'' = True \<and>
   map_option isLimited (map_of (getRateLimitStatus window_open 1) ''fetchUser'') = Some False \<and>
   retryOperation window_open 1 (clock_at 1) (draws 0) (always_fails network_error) (named ''fetchUser'') =
     \<lparr>outcome = Inl (RateLimitExceeded ''fetchUser'' 60000), handler = window_open,
      invocations = 0, delays = []\<rparr>"
proof -
  let ?limit = "\<lparr>rl_count = 1, resetTime = 60000, windowMs = 60000, maxRequests = 10\<rparr>"
  have window: "map_of (rateLimits window_open) ''fetchUser'' = Some ?limit"
    by (simp add: window_open_eq)
  have gate: "operationName (named ''fetchUser'') = ''fetchUser'' \<and>
      checkCircuitBreaker window_open 1 (named ''fetchUser'') = Inr window_open"
    by (simp add: checkCircuitBreaker_def window_open_eq named_def default_options_def)
  note th = C9_rate_limit_predicates_disagree [of window_open "''fetchUser''" ?limit 1
      "named ''fetchUser''" "clock_at 1" "draws 0" "always_fails network_error", OF window]
  have th': "isRateLimited window_open 1 ''fetchUser'' = True \<and>
      map_option isLimited (map_of (getRateLimitStatus window_open 1) ''fetchUser'') = Some False \<and>
      (\<forall>h1. operationName (named ''fetchUser'') = ''fetchUser'' \<and>
           checkCircuitBreaker window_open 1 (named ''fetchUser'') = Inr h1 \<longrightarrow>
           retryOperation window_open 1 (clock_at 1) (draws 0) (always_fails network_error)
             (named ''fetchUser'') =
           \<lparr>outcome = Inl (RateLimitExceeded ''fetchUser'' (resetTime ?limit)), handler = h1,
            invocations = 0, delays = []\<rparr>) \<and>
      (operationName (named ''fetchUser'') = ''fetchUser'' \<longrightarrow>
         invocations (retryOperation window_open 1 (clock_at 1) (draws 0) (always_fails network_error)
             (named ''fetchUser'')) = 0)"
    by (rule th) simp_all
  from th' [THEN conjunct2, THEN conjunct2, THEN conjunct1, THEN spec, THEN mp, OF gate]
       th' [THEN conjunct1] th' [THEN conjunct2, THEN conjunct1]
  show ?thesis by simp
qed

text \<open>
  Claim C10 says that for every operation name with an underscore the counts go to a
  wrong classification. The classification read back is the second piece of the name,
  which can be the right one by coincidence: one \<^verbatim>\<open>network\<close> failure of an operation
  named \<^verbatim>\<open>sync_network\<close> is counted under the type \<^verbatim>\<open>network\<close> (and under the
  operation \<^verbatim>\<open>sync\<close>).
\<close>

theorem C10_second_segment_can_be_the_classification:
  "CHR ''_'' \<in> set ''sync_network'' \<and>
   getErrorType network_error = ''network'' \<and>
   errorsByType (getErrorStats
     (handler (retryOperation new_handler 0 (clock_at 0) (draws 0) (always_fails network_error)
                ((named ''sync_network'')\<lparr>maxRetries := 0\<rparr>))) 1) ''network'' = Some (NumberValue 1) \<and>
   errorsByOperation (getErrorStats
     (handler (retryOperation new_handler 0 (clock_at 0) (draws 0) (always_fails network_error)
                ((named ''sync_network'')\<lparr>maxRetries := 0\<rparr>))) 1) ''sync'' = Some (NumberValue 1)"
  by (simp add: scenario_defs stats_defs)

text \<open>
  Claim C10, amended. Take any state of the handler and any entry of \<^verbatim>\<open>errorCounts\<close>
  that \<^verbatim>\<open>trackError\<close> filed for an operation name containing an underscore. The first
  two pieces of its key are the first two pieces of the name. \<^verbatim>\<open>getErrorStats\<close>
  therefore counts the entry in \<^verbatim>\<open>errorsByOperation\<close> under the part of the name before
  its first underscore, a proper prefix of the name, and in \<^verbatim>\<open>errorsByType\<close> under the
  part between its first and second underscore, which is fixed by the name whatever the
  error was and contains no underscore. Each of the two buckets holds the sum of the
  counts of all entries filed under it, this entry's among them (or a string, when the
  bucket is named like a property every object inherits), and \<^verbatim>\<open>errorsByOperation\<close>
  has nothing under the operation's own name.
\<close>

theorem C10_underscore_names_are_misattributed:
  assumes "CHR ''_'' \<in> set name"
    and "(tracking_key name e, tr) \<in> set (errorCounts h)"
  shows
    "let opPiece = takeWhile (\<lambda>c. c \<noteq> CHR ''_'') name;
         tyPiece = takeWhile (\<lambda>c. c \<noteq> CHR ''_'') (tl (dropWhile (\<lambda>c. c \<noteq> CHR ''_'') name));
         opTotal = (\<Sum>entry\<leftarrow>filter
                      (\<lambda>entry. property_name (at_index (split_underscore (fst entry)) 0) = opPiece)
                      (errorCounts h). count (snd entry));
         tyTotal = (\<Sum>entry\<leftarrow>filter
                      (\<lambda>entry. property_name (at_index (split_underscore (fst entry)) 1) = tyPiece)
                      (errorCounts h). count (snd entry))
     in strict_prefix opPiece name \<and>
        CHR ''_'' \<notin> set tyPiece \<and>
        at_index (split_underscore (tracking_key name e)) 0 = Some opPiece \<and>
        at_index (split_underscore (tracking_key name e)) 1 = Some tyPiece \<and>
        errorsByOperation (getErrorStats h now) opPiece =
          Some (if opPiece \<in> set object_prototype_names then StringValue else NumberValue opTotal) \<and>
        errorsByType (getErrorStats h now) tyPiece =
          Some (if tyPiece \<in> set object_prototype_names then StringValue else NumberValue tyTotal) \<and>
        count tr \<le> opTotal \<and>
        count tr \<le> tyTotal \<and>
        errorsByOperation (getErrorStats h now) name = None"
proof -
  let ?p = "\<lambda>c. c \<noteq> CHR ''_''"
  let ?op = "takeWhile ?p name"
  let ?ty = "takeWhile ?p (tl (dropWhile ?p name))"
  let ?f0 = "\<lambda>entry :: string \<times> tracking. property_name (at_index (split_underscore (fst entry)) 0)"
  let ?f1 = "\<lambda>entry :: string \<times> tracking. property_name (at_index (split_underscore (fst entry)) 1)"
  let ?g = "\<lambda>entry :: string \<times> tracking. count (snd entry)"
  let ?entry = "(tracking_key name e, tr)"
  obtain ty where key: "tracking_key name e = name @ CHR ''_'' # ty"
    by (simp add: tracking_key_def)
  note segs = key_segments [OF assms(1), of ty, folded key]
  have "?op \<noteq> name"
    using assms(1) by (metis (mono_tags, lifting) set_takeWhileD)
  moreover have "prefix ?op name"
    by (metis takeWhile_dropWhile_id prefixI)
  ultimately have strict: "strict_prefix ?op name"
    by (simp add: strict_prefix_def)
  have clean_op: "CHR ''_'' \<notin> set ?op" and clean_ty: "CHR ''_'' \<notin> set ?ty"
    by (auto dest: set_takeWhileD)
  then have not_proto: "?op \<noteq> ''__proto__''" "?ty \<noteq> ''__proto__''"
    by auto
  have f0: "?f0 ?entry = ?op" and f1: "?f1 ?entry = ?ty"
    using segs by (simp_all add: property_name_def)
  have in0: "?op \<in> ?f0 ` set (errorCounts h)" and in1: "?ty \<in> ?f1 ` set (errorCounts h)"
    using assms(2) f0 f1 by (metis image_eqI)+
  have by_op: "errorsByOperation (getErrorStats h now) ?op =
      Some (if ?op \<in> set object_prototype_names then StringValue
            else NumberValue (\<Sum>entry\<leftarrow>filter (\<lambda>entry. ?f0 entry = ?op) (errorCounts h). ?g entry))"
    using in0 not_proto(1) by (simp add: getErrorStats_tables fold_add_count)
  have by_ty: "errorsByType (getErrorStats h now) ?ty =
      Some (if ?ty \<in> set object_prototype_names then StringValue
            else NumberValue (\<Sum>entry\<leftarrow>filter (\<lambda>entry. ?f1 entry = ?ty) (errorCounts h). ?g entry))"
    using in1 not_proto(2) by (simp add: getErrorStats_tables fold_add_count)
  have "?g ?entry \<in> set (map ?g (filter (\<lambda>entry. ?f0 entry = ?op) (errorCounts h)))"
    using assms(2) f0 by (intro image_eqI [where x = ?entry, THEN subst [OF set_map [symmetric], of "\<lambda>S. _ \<in> S"]]) simp_all
  then have le_op: "count tr \<le> (\<Sum>entry\<leftarrow>filter (\<lambda>entry. ?f0 entry = ?op) (errorCounts h). ?g entry)"
    using member_le_sum_list by fastforce
  have "?g ?entry \<in> set (map ?g (filter (\<lambda>entry. ?f1 entry = ?ty) (errorCounts h)))"
    using assms(2) f1 by (intro image_eqI [where x = ?entry, THEN subst [OF set_map [symmetric], of "\<lambda>S. _ \<in> S"]]) simp_all
  then have le_ty: "count tr \<le> (\<Sum>entry\<leftarrow>filter (\<lambda>entry. ?f1 entry = ?ty) (errorCounts h). ?g entry)"
    using member_le_sum_list by fastforce
  have "name \<notin> ?f0 ` set (errorCounts h)"
    using assms(1) stats_name_has_no_underscore by (metis (no_types, lifting) imageE)
  then have own: "errorsByOperation (getErrorStats h now) name = None"
    by (simp add: getErrorStats_tables fold_add_count)
  show ?thesis
    using strict clean_ty segs by_op by_ty le_op le_ty own
    by (simp add: Let_def)
qed

theorem C10_underscore_names_are_misattributed_witness:
  "strict_prefix ''oauth'' ''oauth_token_exchange'' \<and>
   errorsByOperation (getErrorStats after_oauth_failures 1) ''oauth'' = Some (NumberValue 4) \<and>
   errorsByType (getErrorStats after_oauth_failures 1) ''token'' = Some (NumberValue 4) \<and>
   errorsByOperation (getErrorStats after_oauth_failures 1) ''oauth_token_exchange'' = None"
proof -
  let ?e = "\<lparr>etype = Some ''general'', emessage = Some ''Failed to fetch'', estatus = None\<rparr>"
  let ?tr = "\<lparr>count = 4, firstError = 0, lastError = 0\<rparr>"
  have us: "CHR ''_'' \<in> set ''oauth_token_exchange''" by simp
  have entry: "(tracking_key ''oauth_token_exchange'' ?e, ?tr) \<in> set (errorCounts after_oauth_failures)"
    by (simp add: after_oauth_failures_eq tracking_key_def)
  from C10_underscore_names_are_misattributed [OF us entry, of 1]
  show ?thesis
    by (simp add: Let_def after_oauth_failures_eq at_index_def property_name_def
          object_prototype_names_def)
qed

end
